theory Spec2Isabelle
  imports Complex_Main "HOL-Library.Sublist" "HOL-Library.Multiset"
begin

unbundle bit_operations_syntax

section \<open>Bytes and hexadecimal text\<close>

text \<open>
  A Node \<open>Buffer\<close> is a list of bytes, each a natural number below 256. A JavaScript string
  is a \<^typ>\<open>string\<close> whose characters are its code units; only code units below 256 are
  representable, which covers HTTP header values and ASCII file paths.
\<close>

type_synonym byte = nat

definition Buffer_from_utf8 :: "string \<Rightarrow> byte list" where
  "Buffer_from_utf8 s = map of_char s"

definition hexdigit :: "nat \<Rightarrow> char" where
  "hexdigit n = ''0123456789abcdef'' ! n"

definition hex_of_byte :: "byte \<Rightarrow> string" where
  "hex_of_byte b = [hexdigit (b div 16), hexdigit (b mod 16)]"

text \<open>\<open>buf.toString('hex')\<close> and \<open>hmac.digest('hex')\<close>: two lowercase digits per byte.\<close>

definition digest_hex :: "byte list \<Rightarrow> string" where
  "digest_hex bs = concat (map hex_of_byte bs)"

text \<open>Node's \<open>unhex\<close>: the value of a hexadecimal digit of either case.\<close>

definition unhex :: "char \<Rightarrow> nat option" where
  "unhex c =
     (let n = of_char c :: nat
      in if 48 \<le> n \<and> n \<le> 57 then Some (n - 48)
         else if 97 \<le> n \<and> n \<le> 102 then Some (n - 87)
         else if 65 \<le> n \<and> n \<le> 70 then Some (n - 55)
         else None)"

text \<open>
  \<open>Buffer.from(s, 'hex')\<close> decodes two digits at a time and stops, without an error, at the
  first pair that is not two hexadecimal digits; a trailing single character is dropped.
\<close>

fun Buffer_from_hex :: "string \<Rightarrow> byte list" where
  "Buffer_from_hex (a # b # rest) =
     (case unhex a of
        None \<Rightarrow> []
      | Some x \<Rightarrow> (case unhex b of
                    None \<Rightarrow> []
                  | Some y \<Rightarrow> (16 * x + y) # Buffer_from_hex rest))"
| "Buffer_from_hex _ = []"

section \<open>SHA-256 and HMAC\<close>

text \<open>
  \<open>crypto.createHmac('sha256', key).update(data).digest()\<close> is HMAC (RFC 2104) over SHA-256
  (FIPS 180-4). A 32-bit word is a natural number below \<open>2 ^ 32\<close>; addition wraps around.
\<close>

definition add32 :: "nat \<Rightarrow> nat \<Rightarrow> nat" where
  "add32 x y = (x + y) mod 4294967296"

definition rotr :: "nat \<Rightarrow> nat \<Rightarrow> nat" where
  "rotr n x = x div 2 ^ n + (x mod 2 ^ n) * 2 ^ (32 - n)"

definition shr :: "nat \<Rightarrow> nat \<Rightarrow> nat" where
  "shr n x = x div 2 ^ n"

definition choose32 :: "nat \<Rightarrow> nat \<Rightarrow> nat \<Rightarrow> nat" where
  "choose32 e f g = (e AND f) XOR ((4294967295 - e) AND g)"

definition majority32 :: "nat \<Rightarrow> nat \<Rightarrow> nat \<Rightarrow> nat" where
  "majority32 a b c = (a AND b) XOR (a AND c) XOR (b AND c)"

definition Sigma0 :: "nat \<Rightarrow> nat" where
  "Sigma0 x = rotr 2 x XOR rotr 13 x XOR rotr 22 x"

definition Sigma1 :: "nat \<Rightarrow> nat" where
  "Sigma1 x = rotr 6 x XOR rotr 11 x XOR rotr 25 x"

definition sigma0 :: "nat \<Rightarrow> nat" where
  "sigma0 x = rotr 7 x XOR rotr 18 x XOR shr 3 x"

definition sigma1 :: "nat \<Rightarrow> nat" where
  "sigma1 x = rotr 17 x XOR rotr 19 x XOR shr 10 x"

definition sha256_K :: "nat list" where
  "sha256_K =
    [0x428A2F98, 0x71374491, 0xB5C0FBCF, 0xE9B5DBA5, 0x3956C25B, 0x59F111F1, 0x923F82A4, 0xAB1C5ED5,
     0xD807AA98, 0x12835B01, 0x243185BE, 0x550C7DC3, 0x72BE5D74, 0x80DEB1FE, 0x9BDC06A7, 0xC19BF174,
     0xE49B69C1, 0xEFBE4786, 0x0FC19DC6, 0x240CA1CC, 0x2DE92C6F, 0x4A7484AA, 0x5CB0A9DC, 0x76F988DA,
     0x983E5152, 0xA831C66D, 0xB00327C8, 0xBF597FC7, 0xC6E00BF3, 0xD5A79147, 0x06CA6351, 0x14292967,
     0x27B70A85, 0x2E1B2138, 0x4D2C6DFC, 0x53380D13, 0x650A7354, 0x766A0ABB, 0x81C2C92E, 0x92722C85,
     0xA2BFE8A1, 0xA81A664B, 0xC24B8B70, 0xC76C51A3, 0xD192E819, 0xD6990624, 0xF40E3585, 0x106AA070,
     0x19A4C116, 0x1E376C08, 0x2748774C, 0x34B0BCB5, 0x391C0CB3, 0x4ED8AA4A, 0x5B9CCA4F, 0x682E6FF3,
     0x748F82EE, 0x78A5636F, 0x84C87814, 0x8CC70208, 0x90BEFFFA, 0xA4506CEB, 0xBEF9A3F7, 0xC67178F2]"

type_synonym sha_state = "nat \<times> nat \<times> nat \<times> nat \<times> nat \<times> nat \<times> nat \<times> nat"

definition sha256_H0 :: sha_state where
  "sha256_H0 = (0x6A09E667, 0xBB67AE85, 0x3C6EF372, 0xA54FF53A,
                0x510E527F, 0x9B05688C, 0x1F83D9AB, 0x5BE0CD19)"

definition T1 :: "nat \<Rightarrow> nat \<Rightarrow> nat \<Rightarrow> nat \<Rightarrow> nat \<Rightarrow> nat \<Rightarrow> nat" where
  "T1 k w e f g h = add32 (add32 (add32 (add32 h (Sigma1 e)) (choose32 e f g)) k) w"

definition T2 :: "nat \<Rightarrow> nat \<Rightarrow> nat \<Rightarrow> nat" where
  "T2 a b c = add32 (Sigma0 a) (majority32 a b c)"

definition shift_in :: "nat \<Rightarrow> nat \<Rightarrow> sha_state \<Rightarrow> sha_state" where
  "shift_in t1 t2 s =
     (case s of (a, b, c, d, e, f, g, h) \<Rightarrow> (add32 t1 t2, a, b, c, add32 d t1, e, f, g))"

fun round256 :: "nat \<times> nat \<Rightarrow> sha_state \<Rightarrow> sha_state" where
  "round256 (k, w) (a, b, c, d, e, f, g, h) =
     shift_in (T1 k w e f g h) (T2 a b c) (a, b, c, d, e, f, g, h)"

definition add_state :: "sha_state \<Rightarrow> sha_state \<Rightarrow> sha_state" where
  "add_state s t =
     (case s of (a, b, c, d, e, f, g, h) \<Rightarrow>
      case t of (a', b', c', d', e', f', g', h') \<Rightarrow>
        (add32 a a', add32 b b', add32 c c', add32 d d',
         add32 e e', add32 f f', add32 g g', add32 h h'))"

text \<open>Sixteen big-endian words of a 64-byte block.\<close>

fun block_words :: "byte list \<Rightarrow> nat list" where
  "block_words (a # b # c # d # rest) =
     (16777216 * a + 65536 * b + 256 * c + d) # block_words rest"
| "block_words _ = []"

text \<open>
  The message schedule, newest word first: one further word for each element of the
  driving list.
\<close>

definition next_word :: "nat list \<Rightarrow> nat" where
  "next_word w = add32 (add32 (add32 (sigma1 (w ! 1)) (w ! 6)) (sigma0 (w ! 14))) (w ! 15)"

fun expand :: "'a list \<Rightarrow> nat list \<Rightarrow> nat list" where
  "expand [] w = w"
| "expand (k # ks) w = expand ks (next_word w # w)"

definition schedule :: "byte list \<Rightarrow> nat list" where
  "schedule block = rev (expand (drop 16 sha256_K) (rev (block_words block)))"

definition compress :: "byte list \<Rightarrow> sha_state \<Rightarrow> sha_state" where
  "compress block H = add_state H (fold round256 (zip sha256_K (schedule block)) H)"

definition bytes_of32 :: "nat \<Rightarrow> byte list" where
  "bytes_of32 w = [w div 16777216 mod 256, w div 65536 mod 256, w div 256 mod 256, w mod 256]"

definition bytes_of64 :: "nat \<Rightarrow> byte list" where
  "bytes_of64 n = bytes_of32 (n div 4294967296 mod 4294967296) @ bytes_of32 (n mod 4294967296)"

definition sha256_pad :: "byte list \<Rightarrow> byte list" where
  "sha256_pad m =
     m @ 128 # replicate ((64 - (length m + 9) mod 64) mod 64) 0 @ bytes_of64 (8 * length m)"

fun blocks :: "byte list \<Rightarrow> byte list list" where
  "blocks [] = []"
| "blocks (b # bs) = take 64 (b # bs) # blocks (drop 64 (b # bs))"

definition bytes_of_state :: "sha_state \<Rightarrow> byte list" where
  "bytes_of_state s =
     (case s of (a, b, c, d, e, f, g, h) \<Rightarrow>
        bytes_of32 a @ bytes_of32 b @ bytes_of32 c @ bytes_of32 d @
        bytes_of32 e @ bytes_of32 f @ bytes_of32 g @ bytes_of32 h)"

definition sha256 :: "byte list \<Rightarrow> byte list" where
  "sha256 m = bytes_of_state (fold compress (blocks (sha256_pad m)) sha256_H0)"

definition hmac_key :: "byte list \<Rightarrow> byte list" where
  "hmac_key key =
     (let k0 = (if 64 < length key then sha256 key else key)
      in k0 @ replicate (64 - length k0) 0)"

definition hmac_sha256 :: "byte list \<Rightarrow> byte list \<Rightarrow> byte list" where
  "hmac_sha256 key m =
     sha256 (map (\<lambda>b. b XOR 92) (hmac_key key) @
             sha256 (map (\<lambda>b. b XOR 54) (hmac_key key) @ m))"

section \<open>JavaScript strings, errors and the signature check\<close>

datatype js_error = TypeError | RangeError

text \<open>A computation that may throw: \<open>Inl\<close> is the exception, \<open>Inr\<close> the value.\<close>

definition and_then :: "js_error + 'a \<Rightarrow> ('a \<Rightarrow> js_error + 'b) \<Rightarrow> js_error + 'b" where
  "and_then m f = (case m of Inl e \<Rightarrow> Inl e | Inr x \<Rightarrow> f x)"

text \<open>
  \<open>s.replace(pat, rep)\<close> with a string pattern replaces the first occurrence of \<open>pat\<close>,
  wherever it is. The program's replacement text is always empty, so the \<open>$\<close> patterns of
  a replacement never arise.
\<close>

fun String_replace :: "string \<Rightarrow> string \<Rightarrow> string \<Rightarrow> string" where
  "String_replace pat rep [] = (if pat = [] then rep else [])"
| "String_replace pat rep (c # s) =
     (if prefix pat (c # s) then rep @ drop (length pat) (c # s)
      else c # String_replace pat rep s)"

text \<open>\<open>crypto.timingSafeEqual\<close> throws a RangeError on buffers of different lengths.\<close>

definition timingSafeEqual :: "byte list \<Rightarrow> byte list \<Rightarrow> js_error + bool" where
  "timingSafeEqual a b = (if length a \<noteq> length b then Inl RangeError else Inr (a = b))"

text \<open>
  \<open>crypto.createHmac('sha256', key).update(payload, 'utf8').digest('hex')\<close>. The key and the
  payload are given by their UTF-8 bytes, one character per byte.
\<close>

definition createHmac_digest_hex :: "string \<Rightarrow> string \<Rightarrow> string" where
  "createHmac_digest_hex key payload =
     digest_hex (hmac_sha256 (Buffer_from_utf8 key) (Buffer_from_utf8 payload))"

text \<open>
  \<open>!x\<close> for a value that is a string or \<open>undefined\<close> (an environment variable, a request
  header): \<open>undefined\<close> and the empty string are falsy.
\<close>

definition truthy_string :: "string option \<Rightarrow> bool" where
  "truthy_string x = (case x of None \<Rightarrow> False | Some s \<Rightarrow> s \<noteq> [])"

text \<open>
  \<open>verifyGitHubSignature(payload, signature)\<close> of \<open>server.js\<close>; the module constant
  \<open>WEBHOOK_SECRET\<close> is the first argument. The logger calls do not influence the result.
\<close>

definition verifyGitHubSignature :: "string option \<Rightarrow> string \<Rightarrow> string option \<Rightarrow> js_error + bool" where
  "verifyGitHubSignature WEBHOOK_SECRET payload signature =
     (if \<not> truthy_string WEBHOOK_SECRET then Inr True
      else if \<not> truthy_string signature then Inr False
      else
        (let expectedSignature = createHmac_digest_hex (the WEBHOOK_SECRET) payload;
             providedSignature = String_replace ''sha256='' '''' (the signature)
         in timingSafeEqual (Buffer_from_hex expectedSignature)
              (Buffer_from_hex providedSignature)))"

text \<open>\<open>WebhookTester.generateSignature(payload, secret)\<close>; \<open>None\<close> is \<open>null\<close>.\<close>

definition generateSignature :: "string \<Rightarrow> string option \<Rightarrow> string option" where
  "generateSignature payload secret =
     (if \<not> truthy_string secret then None
      else Some (''sha256='' @ createHmac_digest_hex (the secret) payload))"

section \<open>Parsed JSON and the push classifier\<close>

text \<open>
  The values \<open>JSON.parse\<close> returns. \<open>undefined\<close> is not among them: a property read yields
  a \<^typ>\<open>'a option\<close>, with \<open>None\<close> for \<open>undefined\<close>. An object is the list of its own
  properties, each key once.
\<close>

datatype json =
    JNull
  | JBool bool
  | JNum rat
  | JStr string
  | JArr "json list"
  | JObj "(string \<times> json) list"

text \<open>
  \<open>x.k\<close> for the property names the program reads (\<open>commits\<close>, \<open>added\<close>, \<open>modified\<close>,
  \<open>removed\<close>, \<open>repository\<close>, \<open>full_name\<close>, \<open>pusher\<close>, \<open>name\<close>, \<open>ref\<close>, \<open>length\<close>): reading
  a property of \<open>undefined\<close> or \<open>null\<close> throws a TypeError, an object yields its own
  property, and of these names only \<open>length\<close> is inherited, by arrays and strings.
\<close>

fun get_prop :: "json option \<Rightarrow> string \<Rightarrow> js_error + json option" where
  "get_prop None k = Inl TypeError"
| "get_prop (Some JNull) k = Inl TypeError"
| "get_prop (Some (JObj kvs)) k = Inr (map_of kvs k)"
| "get_prop (Some (JArr xs)) k =
     Inr (if k = ''length'' then Some (JNum (of_nat (length xs))) else None)"
| "get_prop (Some (JStr s)) k =
     Inr (if k = ''length'' then Some (JNum (of_nat (length s))) else None)"
| "get_prop (Some (JBool b)) k = Inr None"
| "get_prop (Some (JNum n)) k = Inr None"

fun truthy :: "json option \<Rightarrow> bool" where
  "truthy None = False"
| "truthy (Some JNull) = False"
| "truthy (Some (JBool b)) = b"
| "truthy (Some (JNum n)) = (n \<noteq> 0)"
| "truthy (Some (JStr s)) = (s \<noteq> [])"
| "truthy (Some (JArr xs)) = True"
| "truthy (Some (JObj kvs)) = True"

fun isArray :: "json option \<Rightarrow> bool" where
  "isArray (Some (JArr xs)) = True"
| "isArray _ = False"

fun elements :: "json option \<Rightarrow> json list" where
  "elements (Some (JArr xs)) = xs"
| "elements _ = []"

text \<open>
  A JavaScript \<open>Set\<close> in insertion order. Primitive values are compared by value; an
  object or an array is compared by identity, and every node of a parsed document is a
  fresh object, so one met while walking the document is never in the set yet.
\<close>

fun primitive :: "json \<Rightarrow> bool" where
  "primitive (JArr xs) = False"
| "primitive (JObj kvs) = False"
| "primitive _ = True"

definition Set_add :: "json list \<Rightarrow> json \<Rightarrow> json list" where
  "Set_add s v = (if primitive v \<and> v \<in> set s then s else s @ [v])"

text \<open>\<open>if (x && Array.isArray(x)) { x.forEach(file => modifiedFiles.add(file)); }\<close>\<close>

definition add_files :: "json option \<Rightarrow> json list \<Rightarrow> json list" where
  "add_files x files =
     (if truthy x \<and> isArray x then fold (\<lambda>file s. Set_add s file) (elements x) files
      else files)"

text \<open>The callback of \<open>payload.commits.forEach\<close>.\<close>

definition visit_commit :: "json \<Rightarrow> json list \<Rightarrow> js_error + json list" where
  "visit_commit commit files =
     and_then (get_prop (Some commit) ''added'') (\<lambda>added.
     and_then (get_prop (Some commit) ''modified'') (\<lambda>modified.
     and_then (get_prop (Some commit) ''removed'') (\<lambda>removed.
       Inr (add_files removed (add_files modified (add_files added files))))))"

text \<open>\<open>forEach\<close> with a callback that may throw: the first exception ends the loop.\<close>

fun forEach :: "('a \<Rightarrow> 's \<Rightarrow> js_error + 's) \<Rightarrow> 'a list \<Rightarrow> 's \<Rightarrow> js_error + 's" where
  "forEach f [] s = Inr s"
| "forEach f (x # xs) s = and_then (f x s) (forEach f xs)"

text \<open>\<open>extractModifiedFiles(payload)\<close>; the result is \<open>Array.from\<close> of the set.\<close>

definition extractModifiedFiles :: "json \<Rightarrow> js_error + json list" where
  "extractModifiedFiles payload =
     and_then (get_prop (Some payload) ''commits'') (\<lambda>commits.
       if truthy commits \<and> isArray commits then forEach visit_commit (elements commits) []
       else Inr [])"

text \<open>
  \<open>file.includes(pat)\<close>: a substring test on a string, a membership test on an array, a
  TypeError on every other value, which has no such method.
\<close>

fun call_includes :: "json \<Rightarrow> string \<Rightarrow> js_error + bool" where
  "call_includes (JStr s) pat = Inr (sublist pat s)"
| "call_includes (JArr xs) pat = Inr (JStr pat \<in> set xs)"
| "call_includes _ pat = Inl TypeError"

text \<open>\<open>file.toLowerCase()\<close>, for code units below 256.\<close>

definition lower_char :: "char \<Rightarrow> char" where
  "lower_char c =
     (let n = of_char c :: nat
      in if (65 \<le> n \<and> n \<le> 90) \<or> (192 \<le> n \<and> n \<le> 222 \<and> n \<noteq> 215) then char_of (n + 32)
         else c)"

fun toLowerCase :: "json \<Rightarrow> js_error + json" where
  "toLowerCase (JStr s) = Inr (JStr (map lower_char s))"
| "toLowerCase _ = Inl TypeError"

text \<open>\<open>a || b\<close> on computations that may throw, and \<open>Array.prototype.some\<close>.\<close>

definition or_else :: "js_error + bool \<Rightarrow> js_error + bool \<Rightarrow> js_error + bool" where
  "or_else a b = and_then a (\<lambda>x. if x then Inr True else b)"

fun Array_some :: "('a \<Rightarrow> js_error + bool) \<Rightarrow> 'a list \<Rightarrow> js_error + bool" where
  "Array_some p [] = Inr False"
| "Array_some p (x # xs) = and_then (p x) (\<lambda>hit. if hit then Inr True else Array_some p xs)"

record files_of_interest =
  indexHtml :: bool
  packageJson :: bool
  configFiles :: bool
  dockerfiles :: bool

definition checkFilesOfInterest :: "json list \<Rightarrow> js_error + files_of_interest" where
  "checkFilesOfInterest files =
     and_then (Array_some (\<lambda>file. call_includes file ''index.html'') files) (\<lambda>i.
     and_then (Array_some (\<lambda>file. call_includes file ''package.json'') files) (\<lambda>p.
     and_then (Array_some (\<lambda>file.
         or_else (call_includes file ''.env'')
        (or_else (call_includes file ''config.'')
        (or_else (call_includes file ''.yml'')
                 (call_includes file ''.yaml'')))) files) (\<lambda>c.
     and_then (Array_some (\<lambda>file.
         or_else (and_then (toLowerCase file) (\<lambda>l. call_includes l ''dockerfile''))
                 (call_includes file ''docker-compose'')) files) (\<lambda>d.
       Inr \<lparr>indexHtml = i, packageJson = p, configFiles = c, dockerfiles = d\<rparr>))))"

text \<open>\<open>ref.replace(pat, rep)\<close>: only a string has the method.\<close>

fun call_replace :: "json option \<Rightarrow> string \<Rightarrow> string \<Rightarrow> js_error + string" where
  "call_replace (Some (JStr s)) pat rep = Inr (String_replace pat rep s)"
| "call_replace _ pat rep = Inl TypeError"

record push_result =
  processed :: bool
  repository :: "json option"
  branch :: string
  modifiedFiles :: "json list"
  filesOfInterest :: files_of_interest

text \<open>
  \<open>processPushEvent(payload)\<close>. The logger call is kept for the one thing it can do to the
  result: it reads \<open>payload.commits.length\<close>, which throws when \<open>commits\<close> is missing.
\<close>

definition processPushEvent :: "json \<Rightarrow> js_error + push_result" where
  "processPushEvent payload =
     and_then (get_prop (Some payload) ''repository'') (\<lambda>repo.
     and_then (get_prop repo ''full_name'') (\<lambda>full_name.
     and_then (get_prop (Some payload) ''pusher'') (\<lambda>pusher.
     and_then (get_prop pusher ''name'') (\<lambda>pusher_name.
     and_then (get_prop (Some payload) ''ref'') (\<lambda>ref.
     and_then (call_replace ref ''refs/heads/'' '''') (\<lambda>branch_name.
     and_then (extractModifiedFiles payload) (\<lambda>files.
     and_then (checkFilesOfInterest files) (\<lambda>flags.
     and_then (get_prop (Some payload) ''commits'') (\<lambda>commits.
     and_then (get_prop commits ''length'') (\<lambda>commitCount.
       Inr \<lparr>processed = True, repository = full_name, branch = branch_name,
            modifiedFiles = files, filesOfInterest = flags\<rparr>))))))))))"

section \<open>The webhook endpoint\<close>

record request =
  signature_header :: "string option"
  event_header :: "string option"
  delivery_header :: "string option"
  raw_body :: string

datatype response_body =
    Error_body string string
  | Ignored_body string bool
  | Processed_body string "string option" push_result

record response =
  status :: nat
  body :: response_body

text \<open>A value that is a string or \<open>undefined\<close>, inside a template literal.\<close>

definition template :: "string option \<Rightarrow> string" where
  "template x = (case x of None \<Rightarrow> ''undefined'' | Some s \<Rightarrow> s)"

text \<open>
  The handler of \<open>POST /webhook\<close> for a request with a JSON content type, whose body the
  middleware hands over as a buffer. \<open>JSON.parse\<close> is a parameter; \<open>None\<close> is its
  SyntaxError. Whatever is thrown outside the inner \<open>try\<close> is caught and answered with 500.
\<close>

definition webhook ::
  "(string \<Rightarrow> json option) \<Rightarrow> string option \<Rightarrow> request \<Rightarrow> response" where
  "webhook JSON_parse WEBHOOK_SECRET req =
     (case verifyGitHubSignature WEBHOOK_SECRET (raw_body req) (signature_header req) of
        Inl e \<Rightarrow>
          \<lparr>status = 500, body = Error_body ''Internal Server Error'' ''Failed to process webhook''\<rparr>
      | Inr False \<Rightarrow>
          \<lparr>status = 401, body = Error_body ''Unauthorized'' ''Invalid signature''\<rparr>
      | Inr True \<Rightarrow>
          (case JSON_parse (raw_body req) of
             None \<Rightarrow> \<lparr>status = 400, body = Error_body ''Bad Request'' ''Invalid JSON payload''\<rparr>
           | Some payload \<Rightarrow>
               if event_header req \<noteq> Some ''push''
               then \<lparr>status = 200,
                     body = Ignored_body (template (event_header req) @ '' event ignored'') False\<rparr>
               else (case processPushEvent payload of
                       Inl e \<Rightarrow>
                         \<lparr>status = 500,
                          body = Error_body ''Internal Server Error'' ''Failed to process webhook''\<rparr>
                     | Inr result \<Rightarrow>
                         \<lparr>status = 200,
                          body = Processed_body ''Webhook processed successfully''
                                   (delivery_header req) result\<rparr>)))"

section \<open>Notions of the specification\<close>

text \<open>A \<open>JSON.parse\<close> that reads every body as the given document, for examples.\<close>

definition parsed_as :: "json \<Rightarrow> string \<Rightarrow> json option" where
  "parsed_as document text = Some document"

text \<open>
  Flipping bit \<open>b\<close> (bit 0 the least significant) of the character at position \<open>i\<close> of a
  token.
\<close>

definition flip_char :: "nat \<Rightarrow> char \<Rightarrow> char" where
  "flip_char b c =
     (case c of Char b0 b1 b2 b3 b4 b5 b6 b7 \<Rightarrow>
        Char (b0 \<noteq> (b = 0)) (b1 \<noteq> (b = 1)) (b2 \<noteq> (b = 2)) (b3 \<noteq> (b = 3))
             (b4 \<noteq> (b = 4)) (b5 \<noteq> (b = 5)) (b6 \<noteq> (b = 6)) (b7 \<noteq> (b = 7)))"

definition lowercase_hex :: "char \<Rightarrow> bool" where
  "lowercase_hex c = (c \<in> set ''0123456789abcdef'')"

definition hex_letter :: "char \<Rightarrow> bool" where
  "hex_letter c = (c \<in> set ''abcdef'')"

definition flip_token_bit :: "nat \<Rightarrow> nat \<Rightarrow> string \<Rightarrow> string" where
  "flip_token_bit i b s = s[i := flip_char b (s ! i)]"

text \<open>
  The changed file set in the specification's words: the union of the added, modified and
  removed path lists of all commit records, a list that is missing or is not a list
  counting as empty.
\<close>

definition path_list :: "json \<Rightarrow> string \<Rightarrow> json set" where
  "path_list commit k =
     (case get_prop (Some commit) k of Inr (Some (JArr paths)) \<Rightarrow> set paths | _ \<Rightarrow> {})"

definition commit_records :: "json \<Rightarrow> json list" where
  "commit_records payload =
     (case get_prop (Some payload) ''commits'' of Inr (Some (JArr cs)) \<Rightarrow> cs | _ \<Rightarrow> [])"

definition commit_paths :: "json \<Rightarrow> json set" where
  "commit_paths c = path_list c ''added'' \<union> path_list c ''modified'' \<union> path_list c ''removed''"

definition changed_file_set :: "json \<Rightarrow> json set" where
  "changed_file_set payload = (\<Union>c \<in> set (commit_records payload). commit_paths c)"

section \<open>Properties of the signature check\<close>

lemma nibble_cases:
  assumes "(d::nat) < 16"
  shows "d \<in> {0, 1, 2, 3, 4, 5, 6, 7} \<or> d \<in> {8, 9, 10, 11, 12, 13, 14, 15}"
  using assms by (simp; presburger)

lemma unhex_hexdigit: "d < 16 \<Longrightarrow> unhex (hexdigit d) = Some d"
  by (drule nibble_cases) (auto simp: hexdigit_def unhex_def)

lemma Buffer_from_hex_digest_hex:
  "\<forall>b \<in> set bs. b < 256 \<Longrightarrow> Buffer_from_hex (digest_hex bs) = bs"
proof (induction bs)
  case Nil
  then show ?case by (simp add: digest_hex_def)
next
  case (Cons b bs)
  have hi: "b div 16 < 16" and lo: "b mod 16 < 16"
    using Cons.prems by auto
  have "Buffer_from_hex (digest_hex (b # bs)) =
        (16 * (b div 16) + b mod 16) # Buffer_from_hex (digest_hex bs)"
    by (simp add: digest_hex_def hex_of_byte_def unhex_hexdigit [OF hi] unhex_hexdigit [OF lo])
  with Cons show ?case by simp
qed

lemma bytes_of32_bound: "b \<in> set (bytes_of32 w) \<Longrightarrow> b < 256"
  by (auto simp: bytes_of32_def)

lemma length_sha256: "length (sha256 m) = 32"
  by (simp add: sha256_def bytes_of_state_def bytes_of32_def split: prod.splits)

lemma sha256_bytes: "b \<in> set (sha256 m) \<Longrightarrow> b < 256"
  by (auto simp: sha256_def bytes_of_state_def split: prod.splits dest: bytes_of32_bound)

lemma length_hmac_sha256: "length (hmac_sha256 key m) = 32"
  by (simp add: hmac_sha256_def length_sha256)

lemma hmac_sha256_bytes: "\<forall>b \<in> set (hmac_sha256 key m). b < 256"
  by (auto simp: hmac_sha256_def dest: sha256_bytes)

lemma Buffer_from_hex_expected:
  "Buffer_from_hex (createHmac_digest_hex key payload) =
     hmac_sha256 (Buffer_from_utf8 key) (Buffer_from_utf8 payload)"
  unfolding createHmac_digest_hex_def by (rule Buffer_from_hex_digest_hex [OF hmac_sha256_bytes])

lemma String_replace_prefix: "String_replace pat rep (pat @ s) = rep @ s"
proof (cases "pat @ s")
  case Nil
  then show ?thesis by simp
next
  case (Cons a list)
  have "prefix pat (a # list)"
    using Cons by (metis prefixI)
  moreover have "drop (length pat) (a # list) = s"
    using Cons by (metis append_eq_conv_conj)
  ultimately show ?thesis
    using Cons by simp
qed

text \<open>With a secret and a signature header, the outcome is decided by the decoded token.\<close>

lemma verify_present:
  assumes "secret \<noteq> []" and "sig \<noteq> []"
  shows "verifyGitHubSignature (Some secret) payload (Some sig) =
           (let provided = Buffer_from_hex (String_replace ''sha256='' '''' sig)
            in if length provided \<noteq> 32 then Inl RangeError
               else Inr (hmac_sha256 (Buffer_from_utf8 secret) (Buffer_from_utf8 payload) = provided))"
  using assms
  by (simp add: verifyGitHubSignature_def truthy_string_def Buffer_from_hex_expected
      timingSafeEqual_def length_hmac_sha256 Let_def)

text \<open>
  C3: for every payload and every present secret, the token \<open>sha256=\<close> followed by the
  lowercase hexadecimal HMAC-SHA256 of the payload, which is what \<open>generateSignature\<close>
  builds, verifies.
\<close>

theorem verify_generateSignature:
  assumes "secret \<noteq> []"
  shows "generateSignature payload (Some secret) =
           Some (''sha256='' @ digest_hex (hmac_sha256 (Buffer_from_utf8 secret) (Buffer_from_utf8 payload)))
         \<and> verifyGitHubSignature (Some secret) payload (generateSignature payload (Some secret)) = Inr True"
proof -
  let ?h = "createHmac_digest_hex secret payload"
  have gen: "generateSignature payload (Some secret) = Some (''sha256='' @ ?h)"
    using assms by (simp add: generateSignature_def truthy_string_def)
  have strip: "String_replace ''sha256='' '''' (''sha256='' @ ?h) = ?h"
    using String_replace_prefix [of "''sha256=''" "''''" ?h] by simp
  have "verifyGitHubSignature (Some secret) payload (Some (''sha256='' @ ?h)) =
          (let provided = Buffer_from_hex (String_replace ''sha256='' '''' (''sha256='' @ ?h))
           in if length provided \<noteq> 32 then Inl RangeError
              else Inr (hmac_sha256 (Buffer_from_utf8 secret) (Buffer_from_utf8 payload) = provided))"
    by (rule verify_present) (use assms in simp_all)
  then have "verifyGitHubSignature (Some secret) payload (Some (''sha256='' @ ?h)) = Inr True"
    by (simp only: strip Buffer_from_hex_expected Let_def length_hmac_sha256) simp
  with gen show ?thesis
    by (simp only: createHmac_digest_hex_def)
qed

theorem verify_generateSignature_witness:
  "verifyGitHubSignature (Some ''s'') ''{}'' (generateSignature ''{}'' (Some ''s'')) = Inr True"
proof -
  have "''s'' \<noteq> []" by simp
  from verify_generateSignature [OF this, of "''{}''"] show ?thesis
    by (rule conjunct2)
qed

text \<open>
  C4: without a signature header the check fails whenever a secret is configured, and
  without a configured secret it succeeds for every header value, present or absent.
\<close>

theorem verify_absent:
  "(truthy_string secret \<longrightarrow> verifyGitHubSignature secret payload None = Inr False)
   \<and> (\<not> truthy_string secret \<longrightarrow> verifyGitHubSignature secret payload signature = Inr True)"
  by (simp add: verifyGitHubSignature_def truthy_string_def)

theorem verify_absent_witness:
  "verifyGitHubSignature (Some ''s'') ''{}'' None = Inr False
   \<and> verifyGitHubSignature None ''{}'' (Some ''sha256=00'') = Inr True"
  using verify_absent [of "Some ''s''" "''{}''"] verify_absent [of None "''{}''" "Some ''sha256=00''"]
  by (simp add: truthy_string_def)

text \<open>
  C1 at a token whose hexadecimal part decodes to two bytes instead of 32: the call does
  not return \<open>false\<close>, \<open>timingSafeEqual\<close> throws.
\<close>

theorem verify_short_token_throws:
  "verifyGitHubSignature (Some ''s'') ''{}'' (Some ''sha256=abcd'') = Inl RangeError"
proof -
  have "Buffer_from_hex (String_replace ''sha256='' '''' ''sha256=abcd'') = [171, 205]"
    by (simp add: unhex_def)
  then show ?thesis
    by (simp add: verify_present del: String_replace.simps)
qed

section \<open>Single-bit changes of a token\<close>

lemma unhex_bound: "unhex c = Some x \<Longrightarrow> x < 16"
  by (auto simp: unhex_def Let_def split: if_splits)

lemma hexdigit_lowercase: "d < 16 \<Longrightarrow> lowercase_hex (hexdigit d)"
  by (drule nibble_cases) (auto simp: hexdigit_def lowercase_hex_def)

lemma digest_hex_lowercase:
  assumes "\<forall>b \<in> set bs. b < 256" and "c \<in> set (digest_hex bs)"
  shows "lowercase_hex c"
proof -
  from assms(2) obtain b where b: "b \<in> set bs" "c = hexdigit (b div 16) \<or> c = hexdigit (b mod 16)"
    by (auto simp: digest_hex_def hex_of_byte_def)
  then have "b div 16 < 16" "b mod 16 < 16"
    using assms(1) by auto
  then show ?thesis
    using b(2) hexdigit_lowercase by metis
qed

lemma length_digest_hex: "length (digest_hex bs) = 2 * length bs"
  by (induction bs) (simp_all add: digest_hex_def hex_of_byte_def)

lemma unhex_lowercase: "lowercase_hex c \<Longrightarrow> unhex c \<noteq> None"
  by (auto simp: unhex_def lowercase_hex_def)

lemma length_Buffer_from_hex:
  "\<forall>c \<in> set h. unhex c \<noteq> None \<Longrightarrow> length (Buffer_from_hex h) = length h div 2"
  by (induction h rule: Buffer_from_hex.induct) auto

lemma nibble_pair_inj:
  assumes "y < 16" and "y' < 16"
  shows "(16 * x + y = 16 * x' + y') = (x = x' \<and> y = (y'::nat))"
proof
  assume eq: "16 * x + y = 16 * x' + y'"
  have "(16 * x + y) div 16 = x" "(16 * x' + y') div 16 = x'"
    using assms by simp_all
  then have "x = x'"
    using eq by simp
  then show "x = x' \<and> y = y'"
    using eq by simp
next
  assume "x = x' \<and> y = y'"
  then show "16 * x + y = 16 * x' + y'"
    by simp
qed

lemma Buffer_from_hex_eq_iff:
  assumes "\<forall>c \<in> set h. unhex c \<noteq> None" and "\<forall>c \<in> set h'. unhex c \<noteq> None"
    and "length h = length h'" and "even (length h)"
  shows "Buffer_from_hex h = Buffer_from_hex h' \<longleftrightarrow> map unhex h = map unhex h'"
  using assms
proof (induction h arbitrary: h' rule: Buffer_from_hex.induct)
  case (1 a b rest)
  then obtain a' b' rest' where h': "h' = a' # b' # rest'"
    by (metis length_Suc_conv)
  obtain x y x' y' where v: "unhex a = Some x" "unhex b = Some y"
    "unhex a' = Some x'" "unhex b' = Some y'"
    using "1.prems"(1,2) h' by auto
  have rest: "\<forall>c \<in> set rest. unhex c \<noteq> None" "\<forall>c \<in> set rest'. unhex c \<noteq> None"
    "length rest = length rest'" "even (length rest)"
    using "1.prems" h' by auto
  have "Buffer_from_hex rest = Buffer_from_hex rest' \<longleftrightarrow> map unhex rest = map unhex rest'"
    using "1.IH" [OF v(1) v(2) rest] .
  then show ?case
    using v nibble_pair_inj [OF unhex_bound [OF v(2)] unhex_bound [OF v(4)], of x x']
    by (simp add: h')
next
  case "2_1"
  then show ?case by simp
next
  case "2_2"
  from "2_2.prems"(4) show ?case by simp
qed

lemma octet_cases:
  assumes "(b::nat) < 8"
  shows "b \<in> {0, 1, 2, 3} \<or> b \<in> {4, 5, 6, 7}"
  using assms by (simp; presburger)



text \<open>
  One flipped bit of a lowercase hexadecimal digit: the character changes, and if it is
  still a hexadecimal digit, it has the same value exactly when bit 5 of a letter was
  flipped, which turns the letter into its capital.
\<close>

lemma flip_hex_digit_table:
  "list_all (\<lambda>b. list_all (\<lambda>c.
       flip_char b c \<noteq> c
       \<and> (unhex (flip_char b c) \<noteq> None \<longrightarrow>
            (unhex (flip_char b c) = unhex c) = (b = 5 \<and> hex_letter c)))
     ''0123456789abcdef'') [0, 1, 2, 3, 4, 5, 6, 7]"
  by (simp add: flip_char_def unhex_def hex_letter_def)

lemma flip_hex_digit:
  assumes "lowercase_hex c" and "b < 8"
  shows "flip_char b c \<noteq> c"
    and "unhex (flip_char b c) \<noteq> None \<Longrightarrow>
           unhex (flip_char b c) = unhex c \<longleftrightarrow> b = 5 \<and> hex_letter c"
proof -
  have "b \<in> set [0, 1, 2, 3, 4, 5, 6, 7]"
    using octet_cases [OF assms(2)] by auto
  then have *: "flip_char b c \<noteq> c
       \<and> (unhex (flip_char b c) \<noteq> None \<longrightarrow>
            (unhex (flip_char b c) = unhex c) = (b = 5 \<and> hex_letter c))"
    using flip_hex_digit_table assms(1) unfolding list_all_iff lowercase_hex_def by blast
  show "flip_char b c \<noteq> c"
    using * by blast
  show "unhex (flip_char b c) = unhex c \<longleftrightarrow> b = 5 \<and> hex_letter c"
    if "unhex (flip_char b c) \<noteq> None"
    using * that by blast
qed

lemma flip_token_bit_append: "flip_token_bit (length pre + j) b (pre @ h) = pre @ flip_token_bit j b h"
  by (simp add: flip_token_bit_def list_update_append)

lemma verify_prefixed:
  assumes "secret \<noteq> []"
  shows "verifyGitHubSignature (Some secret) payload (Some (''sha256='' @ h)) =
           (if length (Buffer_from_hex h) \<noteq> 32 then Inl RangeError
            else Inr (hmac_sha256 (Buffer_from_utf8 secret) (Buffer_from_utf8 payload) = Buffer_from_hex h))"
proof -
  have "String_replace ''sha256='' '''' (''sha256='' @ h) = h"
    using String_replace_prefix [of "''sha256=''" "''''" h] by simp
  moreover have "verifyGitHubSignature (Some secret) payload (Some (''sha256='' @ h)) =
          (let provided = Buffer_from_hex (String_replace ''sha256='' '''' (''sha256='' @ h))
           in if length provided \<noteq> 32 then Inl RangeError
              else Inr (hmac_sha256 (Buffer_from_utf8 secret) (Buffer_from_utf8 payload) = provided))"
    by (rule verify_present) (use assms in simp_all)
  ultimately show ?thesis
    by (simp only: Let_def)
qed

lemma verify_flipped_digit:
  assumes "secret \<noteq> []" and "j < 64" and "b < 8"
    and h: "h = createHmac_digest_hex secret payload"
    and valid: "unhex (flip_char b (h ! j)) \<noteq> None"
  shows "flip_token_bit j b h \<noteq> h"
    and "verifyGitHubSignature (Some secret) payload (Some (''sha256='' @ flip_token_bit j b h)) =
           Inr (b = 5 \<and> hex_letter (h ! j))"
proof -
  let ?d = "hmac_sha256 (Buffer_from_utf8 secret) (Buffer_from_utf8 payload)"
  let ?h' = "flip_token_bit j b h"
  have len: "length h = 64"
    by (simp add: h createHmac_digest_hex_def length_digest_hex length_hmac_sha256)
  have lower: "\<forall>c \<in> set h. lowercase_hex c"
    unfolding h createHmac_digest_hex_def
    using digest_hex_lowercase [OF hmac_sha256_bytes] by blast
  then have digit: "lowercase_hex (h ! j)"
    using len assms(2) by (metis nth_mem)
  have ok: "\<forall>c \<in> set h. unhex c \<noteq> None"
    using lower unhex_lowercase by blast
  have ok': "\<forall>c \<in> set ?h'. unhex c \<noteq> None"
    using ok valid by (auto simp: flip_token_bit_def dest!: set_update_subset_insert [THEN subsetD])
  show "?h' \<noteq> h"
    using flip_hex_digit(1) [OF digit assms(3)] len assms(2)
    by (simp add: flip_token_bit_def list_update_same_conv)
  have "length (Buffer_from_hex ?h') = 32"
    using length_Buffer_from_hex [OF ok'] len by (simp add: flip_token_bit_def)
  moreover have "?d = Buffer_from_hex h"
    by (simp add: h Buffer_from_hex_expected)
  moreover have "Buffer_from_hex h = Buffer_from_hex ?h' \<longleftrightarrow> map unhex h = map unhex ?h'"
    by (rule Buffer_from_hex_eq_iff [OF ok ok']) (simp_all add: len flip_token_bit_def)
  moreover have "map unhex h = map unhex ?h' \<longleftrightarrow> unhex (flip_char b (h ! j)) = unhex (h ! j)"
  proof -
    have upd: "map unhex ?h' = (map unhex h)[j := unhex (flip_char b (h ! j))]"
      by (simp add: flip_token_bit_def map_update)
    have at: "map unhex h ! j = unhex (h ! j)"
      using len assms(2) by simp
    have "j < length (map unhex h)"
      using len assms(2) by simp
    then have "(map unhex h)[j := unhex (flip_char b (h ! j))] = map unhex h
                 \<longleftrightarrow> map unhex h ! j = unhex (flip_char b (h ! j))"
      by (rule list_update_same_conv)
    then show ?thesis
      unfolding upd at by metis
  qed
  moreover have "unhex (flip_char b (h ! j)) = unhex (h ! j) \<longleftrightarrow> b = 5 \<and> hex_letter (h ! j)"
    using flip_hex_digit(2) [OF digit assms(3) valid] .
  ultimately show "verifyGitHubSignature (Some secret) payload (Some (''sha256='' @ ?h')) =
           Inr (b = 5 \<and> hex_letter (h ! j))"
    by (simp only: verify_prefixed [OF assms(1)]) simp
qed


section \<open>One token, computed\<close>

text \<open>
  HMAC-SHA256 with key \<open>s\<close> of the two bytes \<open>{}\<close>, evaluated from the definitions: the
  four applications of the compression function, then the two hashes.
\<close>

lemma replicate_numeral_unfold: "replicate (numeral k) x = x # replicate (pred_numeral k) x"
  by (simp add: numeral_eq_Suc)

lemmas sha256_round_defs =
  compress_def schedule_def next_word_def add_state_def sha256_H0_def sha256_K_def
  T1_def T2_def shift_in_def Sigma0_def Sigma1_def sigma0_def sigma1_def
  choose32_def majority32_def rotr_def shr_def add32_def replicate_numeral_unfold

lemma compress_inner_key:
  "compress (69 # replicate 63 54) sha256_H0 =
     (2496135014, 1231771668, 2032155670, 3730435008,
      3798445829, 1149254286, 2439529094, 3538997929)"
  by (simp add: sha256_round_defs)

lemma compress_inner_message:
  "compress (123 # 125 # 128 # replicate 59 0 @ [2, 16])
     (2496135014, 1231771668, 2032155670, 3730435008,
      3798445829, 1149254286, 2439529094, 3538997929) =
     (3414115515, 1940831324, 3621285645, 16444032,
      3663553798, 290289422, 4046098740, 3398857116)"
  by (simp add: sha256_round_defs)

lemma compress_outer_key:
  "compress (47 # replicate 63 92) sha256_H0 =
     (2950304707, 3805558604, 4268914342, 740968924,
      3494255440, 749456806, 3657367604, 955966628)"
  by (simp add: sha256_round_defs)

lemma compress_outer_message:
  "compress ([203, 127, 68, 187, 115, 174, 188, 92, 215, 216, 111, 13, 0, 250, 234, 128,
              218, 93, 101, 6, 17, 77, 119, 14, 241, 42, 145, 52, 202, 150, 113, 156]
             @ 128 # replicate 29 0 @ [3, 0])
     (2950304707, 3805558604, 4268914342, 740968924,
      3494255440, 749456806, 3657367604, 955966628) =
     (339519701, 398072600, 270915378, 2983143261,
      2416988106, 1471873701, 1700014456, 2853749942)"
  by (simp add: sha256_round_defs)

lemma sha256_inner:
  "sha256 (69 # replicate 63 54 @ [123, 125]) =
     [203, 127, 68, 187, 115, 174, 188, 92, 215, 216, 111, 13, 0, 250, 234, 128,
      218, 93, 101, 6, 17, 77, 119, 14, 241, 42, 145, 52, 202, 150, 113, 156]"
proof -
  have "blocks (sha256_pad (69 # replicate 63 54 @ [123, 125])) =
          [69 # replicate 63 54, 123 # 125 # 128 # replicate 59 0 @ [2, 16]]"
    by (simp add: sha256_pad_def bytes_of64_def bytes_of32_def replicate_numeral_unfold)
  then have "sha256 (69 # replicate 63 54 @ [123, 125]) =
          bytes_of_state (compress (123 # 125 # 128 # replicate 59 0 @ [2, 16])
            (compress (69 # replicate 63 54) sha256_H0))"
    by (simp only: sha256_def fold_simps)
  then show ?thesis
    by (simp only: compress_inner_key compress_inner_message)
       (simp add: bytes_of_state_def bytes_of32_def)
qed

lemma sha256_outer:
  "sha256 (47 # replicate 63 92 @
           [203, 127, 68, 187, 115, 174, 188, 92, 215, 216, 111, 13, 0, 250, 234, 128,
            218, 93, 101, 6, 17, 77, 119, 14, 241, 42, 145, 52, 202, 150, 113, 156]) =
     [20, 60, 168, 213, 23, 186, 27, 24, 16, 37, 215, 50, 177, 207, 39, 93,
      144, 16, 79, 202, 87, 187, 2, 165, 101, 84, 41, 120, 170, 24, 196, 182]"
proof -
  have "blocks (sha256_pad (47 # replicate 63 92 @
           [203, 127, 68, 187, 115, 174, 188, 92, 215, 216, 111, 13, 0, 250, 234, 128,
            218, 93, 101, 6, 17, 77, 119, 14, 241, 42, 145, 52, 202, 150, 113, 156])) =
          [47 # replicate 63 92,
           [203, 127, 68, 187, 115, 174, 188, 92, 215, 216, 111, 13, 0, 250, 234, 128,
            218, 93, 101, 6, 17, 77, 119, 14, 241, 42, 145, 52, 202, 150, 113, 156]
           @ 128 # replicate 29 0 @ [3, 0]]"
    by (simp add: sha256_pad_def bytes_of64_def bytes_of32_def replicate_numeral_unfold)
  then have "sha256 (47 # replicate 63 92 @
           [203, 127, 68, 187, 115, 174, 188, 92, 215, 216, 111, 13, 0, 250, 234, 128,
            218, 93, 101, 6, 17, 77, 119, 14, 241, 42, 145, 52, 202, 150, 113, 156]) =
          bytes_of_state (compress
            ([203, 127, 68, 187, 115, 174, 188, 92, 215, 216, 111, 13, 0, 250, 234, 128,
              218, 93, 101, 6, 17, 77, 119, 14, 241, 42, 145, 52, 202, 150, 113, 156]
             @ 128 # replicate 29 0 @ [3, 0])
            (compress (47 # replicate 63 92) sha256_H0))"
    by (simp only: sha256_def fold_simps)
  then show ?thesis
    by (simp only: compress_outer_key compress_outer_message)
       (simp add: bytes_of_state_def bytes_of32_def)
qed

lemma hmac_example:
  "hmac_sha256 (Buffer_from_utf8 ''s'') (Buffer_from_utf8 ''{}'') =
     [20, 60, 168, 213, 23, 186, 27, 24, 16, 37, 215, 50, 177, 207, 39, 93,
      144, 16, 79, 202, 87, 187, 2, 165, 101, 84, 41, 120, 170, 24, 196, 182]"
proof -
  have "hmac_key (Buffer_from_utf8 ''s'') = 115 # replicate 63 0"
    by (simp add: hmac_key_def Buffer_from_utf8_def)
  then show ?thesis
    by (simp add: hmac_sha256_def Buffer_from_utf8_def sha256_inner sha256_outer)
qed

lemma token_example:
  "generateSignature ''{}'' (Some ''s'') =
     Some ''sha256=143ca8d517ba1b181025d732b1cf275d90104fca57bb02a565542978aa18c4b6''"
  by (simp add: generateSignature_def truthy_string_def createHmac_digest_hex_def hmac_example
      digest_hex_def hex_of_byte_def hexdigit_def)

text \<open>
  C2, as the program has it, for a flipped bit in one of the 64 digits of the digest that
  leaves the character a hexadecimal digit: the token differs from the signed one, and the
  check returns \<open>false\<close> unless the flipped bit is bit 5 of a letter \<open>a\<close> to \<open>f\<close>. That
  flip writes the same digit as a capital, the token decodes to the same digest, and the
  check returns \<open>true\<close>.
\<close>

theorem verify_flipped_bit:
  assumes "generateSignature payload (Some secret) = Some T" and "j < 64" and "b < 8"
    and "unhex (flip_token_bit (7 + j) b T ! (7 + j)) \<noteq> None"
  shows "flip_token_bit (7 + j) b T \<noteq> T
         \<and> verifyGitHubSignature (Some secret) payload (Some (flip_token_bit (7 + j) b T)) =
             Inr (b = 5 \<and> hex_letter (T ! (7 + j)))"
proof -
  let ?h = "createHmac_digest_hex secret payload"
  have secret: "secret \<noteq> []" and T: "T = ''sha256='' @ ?h"
    using assms(1) by (auto simp: generateSignature_def truthy_string_def split: if_splits)
  have len: "length ?h = 64"
    by (simp add: createHmac_digest_hex_def length_digest_hex length_hmac_sha256)
  have seven: "length ''sha256='' = 7"
    by simp
  have flip: "flip_token_bit (7 + j) b T = ''sha256='' @ flip_token_bit j b ?h"
    using flip_token_bit_append [of "''sha256=''" j b ?h] unfolding seven T .
  have at: "T ! (7 + j) = ?h ! j"
    using nth_append_length_plus [of "''sha256=''" ?h j] unfolding seven T .
  have "flip_token_bit (7 + j) b T ! (7 + j) = flip_token_bit j b ?h ! j"
    using nth_append_length_plus [of "''sha256=''" "flip_token_bit j b ?h" j] unfolding seven flip .
  also have "\<dots> = flip_char b (?h ! j)"
    using len assms(2) by (simp add: flip_token_bit_def)
  finally have valid: "unhex (flip_char b (?h ! j)) \<noteq> None"
    using assms(4) by simp
  have changed: "flip_token_bit j b ?h \<noteq> ?h"
    and result: "verifyGitHubSignature (Some secret) payload (Some (''sha256='' @ flip_token_bit j b ?h)) =
           Inr (b = 5 \<and> hex_letter (?h ! j))"
    using verify_flipped_digit [OF secret assms(2,3) refl valid] by blast+
  have "flip_token_bit (7 + j) b T \<noteq> T"
    using changed unfolding flip by (simp only: T same_append_eq) simp
  moreover have "verifyGitHubSignature (Some secret) payload (Some (flip_token_bit (7 + j) b T)) =
             Inr (b = 5 \<and> hex_letter (T ! (7 + j)))"
    using result by (simp only: flip at)
  ultimately show ?thesis
    by (rule conjI)
qed

theorem verify_flipped_bit_witness:
  "verifyGitHubSignature (Some ''s'') ''{}''
     (Some (flip_token_bit 10 5 ''sha256=143ca8d517ba1b181025d732b1cf275d90104fca57bb02a565542978aa18c4b6''))
     = Inr True
   \<and> verifyGitHubSignature (Some ''s'') ''{}''
     (Some (flip_token_bit 7 0 ''sha256=143ca8d517ba1b181025d732b1cf275d90104fca57bb02a565542978aa18c4b6''))
     = Inr False"
proof -
  let ?T = "''sha256=143ca8d517ba1b181025d732b1cf275d90104fca57bb02a565542978aa18c4b6''"
  have "unhex (flip_token_bit (7 + 3) 5 ?T ! (7 + 3)) \<noteq> None"
    by (simp add: flip_token_bit_def flip_char_def unhex_def)
  from verify_flipped_bit [OF token_example _ _ this]
  have one: "verifyGitHubSignature (Some ''s'') ''{}'' (Some (flip_token_bit 10 5 ?T)) = Inr True"
    by (simp add: hex_letter_def)
  have "unhex (flip_token_bit (7 + 0) 0 ?T ! (7 + 0)) \<noteq> None"
    by (simp add: flip_token_bit_def flip_char_def unhex_def)
  from verify_flipped_bit [OF token_example _ _ this]
  have "verifyGitHubSignature (Some ''s'') ''{}'' (Some (flip_token_bit 7 0 ?T)) = Inr False"
    by simp
  with one show ?thesis
    by simp
qed

text \<open>
  C2 as stated fails at the token signed for payload \<open>{}\<close> with secret \<open>s\<close>: flipping bit 5
  of its fourth digit, the letter \<open>c\<close>, gives a different token that verifies.
\<close>

theorem verify_flipped_bit_counterexample:
  "generateSignature ''{}'' (Some ''s'') =
     Some ''sha256=143ca8d517ba1b181025d732b1cf275d90104fca57bb02a565542978aa18c4b6''
   \<and> flip_token_bit 10 5 ''sha256=143ca8d517ba1b181025d732b1cf275d90104fca57bb02a565542978aa18c4b6''
       = ''sha256=143Ca8d517ba1b181025d732b1cf275d90104fca57bb02a565542978aa18c4b6''
   \<and> ''sha256=143Ca8d517ba1b181025d732b1cf275d90104fca57bb02a565542978aa18c4b6''
       \<noteq> ''sha256=143ca8d517ba1b181025d732b1cf275d90104fca57bb02a565542978aa18c4b6''
   \<and> verifyGitHubSignature (Some ''s'') ''{}''
       (Some ''sha256=143Ca8d517ba1b181025d732b1cf275d90104fca57bb02a565542978aa18c4b6'')
       = Inr True"
proof (intro conjI)
  show "generateSignature ''{}'' (Some ''s'') =
     Some ''sha256=143ca8d517ba1b181025d732b1cf275d90104fca57bb02a565542978aa18c4b6''"
    by (rule token_example)
  show "flip_token_bit 10 5 ''sha256=143ca8d517ba1b181025d732b1cf275d90104fca57bb02a565542978aa18c4b6''
       = ''sha256=143Ca8d517ba1b181025d732b1cf275d90104fca57bb02a565542978aa18c4b6''"
    by (simp add: flip_token_bit_def flip_char_def)
  show "''sha256=143Ca8d517ba1b181025d732b1cf275d90104fca57bb02a565542978aa18c4b6''
       \<noteq> ''sha256=143ca8d517ba1b181025d732b1cf275d90104fca57bb02a565542978aa18c4b6''"
    by simp
  have "Buffer_from_hex ''143Ca8d517ba1b181025d732b1cf275d90104fca57bb02a565542978aa18c4b6'' =
     [20, 60, 168, 213, 23, 186, 27, 24, 16, 37, 215, 50, 177, 207, 39, 93,
      144, 16, 79, 202, 87, 187, 2, 165, 101, 84, 41, 120, 170, 24, 196, 182]"
    by (simp add: unhex_def)
  then show "verifyGitHubSignature (Some ''s'') ''{}''
       (Some ''sha256=143Ca8d517ba1b181025d732b1cf275d90104fca57bb02a565542978aa18c4b6'')
       = Inr True"
    using verify_prefixed [of "''s''" "''{}''"
        "''143Ca8d517ba1b181025d732b1cf275d90104fca57bb02a565542978aa18c4b6''"]
    by (simp add: hmac_example)
qed

text \<open>
  A flipped bit in the prefix of the same token leaves no \<open>sha256=\<close> to remove and nothing
  to decode: the comparison gets an empty buffer and throws, as for every token whose
  decoded length is not 32.
\<close>

lemma verify_flipped_prefix_throws:
  "verifyGitHubSignature (Some ''s'') ''{}''
     (Some ''rha256=143ca8d517ba1b181025d732b1cf275d90104fca57bb02a565542978aa18c4b6'')
     = Inl RangeError"
proof -
  have "Buffer_from_hex (String_replace ''sha256='' ''''
          ''rha256=143ca8d517ba1b181025d732b1cf275d90104fca57bb02a565542978aa18c4b6'') = []"
    by (simp add: unhex_def)
  then show ?thesis
    by (simp add: verify_present del: String_replace.simps)
qed

section \<open>Properties of the push classifier\<close>

lemma and_then_Inr_iff: "and_then m f = Inr y \<longleftrightarrow> (\<exists>x. m = Inr x \<and> f x = Inr y)"
  by (cases m) (simp_all add: and_then_def)

lemma and_then_Inr [simp]: "and_then (Inr x) f = f x"
  by (simp add: and_then_def)

lemma and_then_Inl [simp]: "and_then (Inl e) f = Inl e"
  by (simp add: and_then_def)

lemma get_prop_null: "get_prop (Some JNull) k = Inl TypeError"
  by simp

lemma get_prop_value: "c \<noteq> JNull \<Longrightarrow> \<exists>v. get_prop (Some c) k = Inr v"
  by (cases c) simp_all

lemma get_prop_error: "get_prop x k = Inl e \<Longrightarrow> e = TypeError"
  by (cases "(x, k)" rule: get_prop.cases) simp_all

lemma set_Set_add: "set (Set_add s v) = insert v (set s)"
  by (auto simp: Set_add_def)

lemma distinct_Set_add:
  "distinct (filter primitive s) \<Longrightarrow> distinct (filter primitive (Set_add s v))"
  by (auto simp: Set_add_def)

lemma set_fold_Set_add: "set (fold (\<lambda>file s. Set_add s file) xs s) = set s \<union> set xs"
  by (induction xs arbitrary: s) (auto simp: set_Set_add)

lemma distinct_fold_Set_add:
  "distinct (filter primitive s) \<Longrightarrow>
     distinct (filter primitive (fold (\<lambda>file s. Set_add s file) xs s))"
  by (induction xs arbitrary: s) (auto simp: distinct_Set_add)

lemma elements_not_array: "\<not> isArray x \<Longrightarrow> elements x = []"
  by (cases x rule: isArray.cases) simp_all

lemma add_files_fold: "add_files x s = fold (\<lambda>file s. Set_add s file) (elements x) s"
  by (cases x rule: isArray.cases) (simp_all add: add_files_def)

lemma set_add_files: "set (add_files x s) = set s \<union> set (elements x)"
  by (simp add: add_files_fold set_fold_Set_add)

lemma distinct_add_files:
  "distinct (filter primitive s) \<Longrightarrow> distinct (filter primitive (add_files x s))"
  by (simp add: add_files_fold distinct_fold_Set_add)

lemma path_list_elements:
  "get_prop (Some c) k = Inr x \<Longrightarrow> path_list c k = set (elements x)"
  by (cases x rule: isArray.cases) (simp_all add: path_list_def)

lemma visit_commit_null: "visit_commit JNull s = Inl TypeError"
  by (simp add: visit_commit_def)

lemma visit_commit_value:
  assumes "c \<noteq> JNull"
  shows "\<exists>s'. visit_commit c s = Inr s' \<and> set s' = set s \<union> commit_paths c
           \<and> (distinct (filter primitive s) \<longrightarrow> distinct (filter primitive s'))"
proof -
  obtain a m r where props:
    "get_prop (Some c) ''added'' = Inr a"
    "get_prop (Some c) ''modified'' = Inr m"
    "get_prop (Some c) ''removed'' = Inr r"
    using get_prop_value [OF assms] by metis
  have "visit_commit c s = Inr (add_files r (add_files m (add_files a s)))"
    by (simp add: visit_commit_def props)
  moreover have "set (add_files r (add_files m (add_files a s))) = set s \<union> commit_paths c"
    by (auto simp: set_add_files commit_paths_def path_list_elements [OF props(1)]
        path_list_elements [OF props(2)] path_list_elements [OF props(3)])
  ultimately show ?thesis
    by (simp add: distinct_add_files)
qed

lemma forEach_visit_commit_null:
  "JNull \<in> set cs \<Longrightarrow> forEach visit_commit cs s = Inl TypeError"
proof (induction cs arbitrary: s)
  case Nil
  then show ?case by simp
next
  case (Cons c cs)
  show ?case
  proof (cases "c = JNull")
    case True
    then show ?thesis by (simp add: visit_commit_null)
  next
    case False
    then obtain s' where "visit_commit c s = Inr s'"
      using visit_commit_value by blast
    moreover have "JNull \<in> set cs"
      using Cons.prems False by auto
    ultimately show ?thesis
      using Cons.IH by simp
  qed
qed

lemma forEach_visit_commit_value:
  "JNull \<notin> set cs \<Longrightarrow>
     \<exists>s'. forEach visit_commit cs s = Inr s' \<and> set s' = set s \<union> (\<Union>c \<in> set cs. commit_paths c)
       \<and> (distinct (filter primitive s) \<longrightarrow> distinct (filter primitive s'))"
proof (induction cs arbitrary: s)
  case Nil
  then show ?case by simp
next
  case (Cons c cs)
  then have "c \<noteq> JNull" and rest: "JNull \<notin> set cs"
    by auto
  then obtain s1 where s1: "visit_commit c s = Inr s1" "set s1 = set s \<union> commit_paths c"
    "distinct (filter primitive s) \<longrightarrow> distinct (filter primitive s1)"
    using visit_commit_value by blast
  obtain s2 where s2: "forEach visit_commit cs s1 = Inr s2"
    "set s2 = set s1 \<union> (\<Union>c \<in> set cs. commit_paths c)"
    "distinct (filter primitive s1) \<longrightarrow> distinct (filter primitive s2)"
    using Cons.IH [OF rest] by blast
  have "forEach visit_commit (c # cs) s = Inr s2"
    by (simp add: s1(1) s2(1))
  moreover have "set s2 = set s \<union> (\<Union>c \<in> set (c # cs). commit_paths c)"
    using s1(2) s2(2) by auto
  ultimately show ?case
    using s1(3) s2(3) by blast
qed

lemma changed_file_set_commit_paths:
  "changed_file_set payload = (\<Union>c \<in> set (commit_records payload). commit_paths c)"
  by (simp add: changed_file_set_def)

lemma extractModifiedFiles_forEach:
  assumes "payload \<noteq> JNull"
  shows "extractModifiedFiles payload = forEach visit_commit (commit_records payload) []"
proof -
  obtain x where x: "get_prop (Some payload) ''commits'' = Inr x"
    using get_prop_value [OF assms] by blast
  show ?thesis
    by (cases x rule: isArray.cases)
       (simp_all add: extractModifiedFiles_def commit_records_def x)
qed

text \<open>
  C6: for a push event whose commit records are JSON values other than \<open>null\<close>,
  \<open>extractModifiedFiles\<close> returns, without failing, a list whose elements are exactly the
  union of the added, modified and removed lists of all commit records (a list that is
  missing or is not an array contributing nothing), and no path occurs twice in it.
\<close>

theorem extractModifiedFiles_union:
  assumes "payload \<noteq> JNull" and "\<forall>c \<in> set (commit_records payload). c \<noteq> JNull"
  shows "\<exists>files. extractModifiedFiles payload = Inr files
           \<and> set files = changed_file_set payload
           \<and> distinct (filter primitive files)"
proof -
  have "JNull \<notin> set (commit_records payload)"
    using assms(2) by blast
  from forEach_visit_commit_value [OF this, of "[]"] show ?thesis
    by (auto simp: extractModifiedFiles_forEach [OF assms(1)] changed_file_set_commit_paths)
qed

theorem extractModifiedFiles_union_witness:
  "\<exists>files.
     extractModifiedFiles
       (JObj [(''commits'',
          JArr [JObj [(''added'', JArr [JStr ''index.html'']),
                      (''modified'', JArr [JStr ''src/app.js'', JStr ''index.html''])],
                JObj [(''removed'', JArr [JStr ''src/app.js'']), (''added'', JNull)]])])
       = Inr files
     \<and> set files = {JStr ''index.html'', JStr ''src/app.js''}
     \<and> distinct files"
proof -
  let ?p = "JObj [(''commits'',
          JArr [JObj [(''added'', JArr [JStr ''index.html'']),
                      (''modified'', JArr [JStr ''src/app.js'', JStr ''index.html''])],
                JObj [(''removed'', JArr [JStr ''src/app.js'']), (''added'', JNull)]])]"
  have "?p \<noteq> JNull"
    by simp
  moreover have "\<forall>c \<in> set (commit_records ?p). c \<noteq> JNull"
    by (simp add: commit_records_def)
  ultimately obtain files where files: "extractModifiedFiles ?p = Inr files"
    "set files = changed_file_set ?p" "distinct (filter primitive files)"
    using extractModifiedFiles_union by blast
  have set: "changed_file_set ?p = {JStr ''index.html'', JStr ''src/app.js''}"
    by (auto simp: changed_file_set_def commit_records_def commit_paths_def path_list_def)
  have "\<forall>f \<in> set files. primitive f"
    using files(2) set by auto
  then have "filter primitive files = files"
    by (simp add: filter_id_conv)
  with files set show ?thesis
    by auto
qed

text \<open>
  C8: two events whose commit lists are permutations of each other give the same set of
  changed files; if a commit record is \<open>null\<close>, both calls throw. When no commit record is
  \<open>null\<close> the call returns.
\<close>

theorem extractModifiedFiles_permutation:
  assumes "get_prop (Some payload) ''commits'' = Inr (Some (JArr cs))"
    and "get_prop (Some payload') ''commits'' = Inr (Some (JArr cs'))"
    and "mset cs' = mset cs"
  shows "map_sum id set (extractModifiedFiles payload') = map_sum id set (extractModifiedFiles payload)
         \<and> (JNull \<notin> set cs \<longrightarrow> (\<exists>files. extractModifiedFiles payload = Inr files))"
proof -
  have nn: "payload \<noteq> JNull" "payload' \<noteq> JNull"
    using assms(1,2) by auto
  have recs: "commit_records payload = cs" "commit_records payload' = cs'"
    by (simp_all add: commit_records_def assms(1,2))
  have same: "set cs' = set cs"
    using assms(3) by (rule mset_eq_setD)
  show ?thesis
  proof (cases "JNull \<in> set cs")
    case True
    then show ?thesis
      using same
      by (simp add: extractModifiedFiles_forEach nn recs forEach_visit_commit_null)
  next
    case False
    then have False': "JNull \<notin> set cs'"
      using same by simp
    obtain s where s: "forEach visit_commit cs [] = Inr s"
      "set s = set [] \<union> (\<Union>c \<in> set cs. commit_paths c)"
      using forEach_visit_commit_value [OF False] by blast
    obtain s' where s': "forEach visit_commit cs' [] = Inr s'"
      "set s' = set [] \<union> (\<Union>c \<in> set cs'. commit_paths c)"
      using forEach_visit_commit_value [OF False'] by blast
    show ?thesis
      using s s' same by (simp add: extractModifiedFiles_forEach nn recs)
  qed
qed

theorem extractModifiedFiles_permutation_witness:
  "map_sum id set (extractModifiedFiles
      (JObj [(''commits'', JArr [JObj [(''added'', JArr [JStr ''b''])],
                                 JObj [(''modified'', JArr [JStr ''a'', JStr ''b''])]])]))
   = map_sum id set (extractModifiedFiles
      (JObj [(''commits'', JArr [JObj [(''modified'', JArr [JStr ''a'', JStr ''b''])],
                                 JObj [(''added'', JArr [JStr ''b''])]])]))"
proof -
  let ?c1 = "JObj [(''added'', JArr [JStr ''b''])]"
  let ?c2 = "JObj [(''modified'', JArr [JStr ''a'', JStr ''b''])]"
  have "get_prop (Some (JObj [(''commits'', JArr [?c2, ?c1])])) ''commits'' = Inr (Some (JArr [?c2, ?c1]))"
    by simp
  moreover have "get_prop (Some (JObj [(''commits'', JArr [?c1, ?c2])])) ''commits'' = Inr (Some (JArr [?c1, ?c2]))"
    by simp
  moreover have "mset [?c1, ?c2] = mset [?c2, ?c1]"
    by (simp add: add.commute)
  ultimately show ?thesis
    using extractModifiedFiles_permutation by blast
qed

text \<open>
  C10: for a payload other than \<open>null\<close> whose \<open>commits\<close> property is missing or is not an
  array, \<open>extractModifiedFiles\<close> returns the empty list.
\<close>

theorem extractModifiedFiles_no_commits:
  assumes "payload \<noteq> JNull"
    and "\<forall>cs. get_prop (Some payload) ''commits'' \<noteq> Inr (Some (JArr cs))"
  shows "extractModifiedFiles payload = Inr []"
proof -
  have "commit_records payload = []"
    using assms(2) by (auto simp: commit_records_def split: sum.splits option.splits json.splits)
  then show ?thesis
    by (simp add: extractModifiedFiles_forEach [OF assms(1)])
qed

theorem extractModifiedFiles_no_commits_witness:
  "extractModifiedFiles (JObj [(''ref'', JStr ''refs/heads/main'')]) = Inr []
   \<and> extractModifiedFiles (JObj [(''commits'', JStr ''none'')]) = Inr []"
  using extractModifiedFiles_no_commits [of "JObj [(''ref'', JStr ''refs/heads/main'')]"]
    extractModifiedFiles_no_commits [of "JObj [(''commits'', JStr ''none'')]"]
  by simp

lemma Array_some_total:
  "\<forall>x \<in> set xs. p x = Inr (q x) \<Longrightarrow> Array_some p xs = Inr (\<exists>x \<in> set xs. q x)"
  by (induction xs) auto

lemma Array_some_JStr:
  assumes "\<And>s. p (JStr s) = Inr (q s)"
  shows "Array_some p (map JStr paths) = Inr (\<exists>s \<in> set paths. q s)"
  using Array_some_total [of "map JStr paths" p "\<lambda>x. case x of JStr s \<Rightarrow> q s | _ \<Rightarrow> False"]
  by (simp add: assms)

text \<open>
  Containing a text after conversion to lower case is containing it in some spelling:
  a part of the path that equals the text once both are in lower case.
\<close>

lemma sublist_lower_iff:
  "sublist pat (map lower_char p) \<longleftrightarrow> (\<exists>q. sublist q p \<and> map lower_char q = pat)"
  using sublist_map_rightE [of pat lower_char p] map_mono_sublist [of _ p lower_char]
  by metis

text \<open>
  C7: on a list of path strings the four flags are the four substring scans of the
  specification, the container scan being made on the path in lower case for
  \<open>dockerfile\<close> and on the path as it is for \<open>docker-compose\<close>; \<open>Dockerfile.prod\<close> sets the
  container flag and \<open>dockerfile-compose.yml\<close> sets the configuration and container flags.
\<close>

theorem checkFilesOfInterest_flags:
  "checkFilesOfInterest (map JStr paths) =
     Inr \<lparr>indexHtml = (\<exists>p \<in> set paths. sublist ''index.html'' p),
          packageJson = (\<exists>p \<in> set paths. sublist ''package.json'' p),
          configFiles = (\<exists>p \<in> set paths. sublist ''.env'' p \<or> sublist ''config.'' p
                            \<or> sublist ''.yml'' p \<or> sublist ''.yaml'' p),
          dockerfiles = (\<exists>p \<in> set paths. sublist ''dockerfile'' (map lower_char p)
                            \<or> sublist ''docker-compose'' p)\<rparr>
   \<and> checkFilesOfInterest [JStr ''Dockerfile.prod''] =
       Inr \<lparr>indexHtml = False, packageJson = False, configFiles = False, dockerfiles = True\<rparr>
   \<and> checkFilesOfInterest [JStr ''dockerfile-compose.yml''] =
       Inr \<lparr>indexHtml = False, packageJson = False, configFiles = True, dockerfiles = True\<rparr>"
proof (intro conjI)
  have i: "Array_some (\<lambda>file. call_includes file ''index.html'') (map JStr paths) =
             Inr (\<exists>p \<in> set paths. sublist ''index.html'' p)"
    by (rule Array_some_JStr) simp
  have p: "Array_some (\<lambda>file. call_includes file ''package.json'') (map JStr paths) =
             Inr (\<exists>p \<in> set paths. sublist ''package.json'' p)"
    by (rule Array_some_JStr) simp
  have c: "Array_some (\<lambda>file.
               or_else (call_includes file ''.env'')
              (or_else (call_includes file ''config.'')
              (or_else (call_includes file ''.yml'')
                       (call_includes file ''.yaml'')))) (map JStr paths) =
             Inr (\<exists>p \<in> set paths. sublist ''.env'' p \<or> sublist ''config.'' p
                     \<or> sublist ''.yml'' p \<or> sublist ''.yaml'' p)"
    by (rule Array_some_JStr) (simp add: or_else_def)
  have d: "Array_some (\<lambda>file.
               or_else (and_then (toLowerCase file) (\<lambda>l. call_includes l ''dockerfile''))
                       (call_includes file ''docker-compose'')) (map JStr paths) =
             Inr (\<exists>p \<in> set paths. sublist ''dockerfile'' (map lower_char p)
                     \<or> sublist ''docker-compose'' p)"
    by (rule Array_some_JStr) (simp add: or_else_def)
  show "checkFilesOfInterest (map JStr paths) =
     Inr \<lparr>indexHtml = (\<exists>p \<in> set paths. sublist ''index.html'' p),
          packageJson = (\<exists>p \<in> set paths. sublist ''package.json'' p),
          configFiles = (\<exists>p \<in> set paths. sublist ''.env'' p \<or> sublist ''config.'' p
                            \<or> sublist ''.yml'' p \<or> sublist ''.yaml'' p),
          dockerfiles = (\<exists>p \<in> set paths. sublist ''dockerfile'' (map lower_char p)
                            \<or> sublist ''docker-compose'' p)\<rparr>"
    unfolding checkFilesOfInterest_def i p c d by simp
  show "checkFilesOfInterest [JStr ''Dockerfile.prod''] =
       Inr \<lparr>indexHtml = False, packageJson = False, configFiles = False, dockerfiles = True\<rparr>"
    by code_simp
  show "checkFilesOfInterest [JStr ''dockerfile-compose.yml''] =
       Inr \<lparr>indexHtml = False, packageJson = False, configFiles = True, dockerfiles = True\<rparr>"
    by code_simp
qed

theorem checkFilesOfInterest_flags_witness:
  "checkFilesOfInterest [JStr ''index.html'', JStr ''src/app.js''] =
     Inr \<lparr>indexHtml = True, packageJson = False, configFiles = False, dockerfiles = False\<rparr>"
proof -
  have "map lower_char ''index.html'' = ''index.html''"
    "map lower_char ''src/app.js'' = ''src/app.js''"
    by code_simp+
  then show ?thesis
    using checkFilesOfInterest_flags [of "[''index.html'', ''src/app.js'']"]
    by (simp add: sublist_Cons_right)
qed

section \<open>Properties of the endpoint\<close>

text \<open>
  C9: a request that passes the signature check, whose body parses, and whose event type
  is not \<open>push\<close> is answered with status 200, \<open>processed: false\<close> and a message naming the
  event type. The answer does not depend on the payload: \<open>processPushEvent\<close> is not run.
\<close>

theorem webhook_ignored:
  assumes "verifyGitHubSignature secret (raw_body req) (signature_header req) = Inr True"
    and "JSON_parse (raw_body req) = Some payload"
    and "event_header req \<noteq> Some ''push''"
  shows "webhook JSON_parse secret req =
           \<lparr>status = 200,
            body = Ignored_body (template (event_header req) @ '' event ignored'') False\<rparr>"
  using assms by (simp add: webhook_def)

theorem webhook_ignored_witness:
  "webhook (parsed_as JNull) None
     \<lparr>signature_header = None, event_header = Some ''issues'', delivery_header = None,
      raw_body = ''null''\<rparr>
   = \<lparr>status = 200, body = Ignored_body ''issues event ignored'' False\<rparr>"
  using webhook_ignored [of None
      "\<lparr>signature_header = None, event_header = Some ''issues'', delivery_header = None,
        raw_body = ''null''\<rparr>" "parsed_as JNull" JNull]
  by (simp add: verifyGitHubSignature_def truthy_string_def template_def parsed_as_def)

lemma String_replace_absent: "\<not> sublist pat s \<Longrightarrow> String_replace pat rep s = s"
proof (induction s)
  case Nil
  then show ?case by auto
next
  case (Cons c s)
  then have "\<not> prefix pat (c # s)" and "\<not> sublist pat s"
    by (auto simp: sublist_Cons_right)
  with Cons.IH show ?case by simp
qed

lemma processPushEvent_branch:
  assumes "processPushEvent payload = Inr result"
  shows "\<exists>ref. get_prop (Some payload) ''ref'' = Inr (Some (JStr ref))
           \<and> branch result = String_replace ''refs/heads/'' '''' ref"
  using assms unfolding processPushEvent_def and_then_Inr_iff
  by (auto elim!: call_replace.elims)

lemma webhook_processed:
  assumes "webhook JSON_parse secret req = \<lparr>status = st, body = Processed_body msg delivery result\<rparr>"
  shows "\<exists>payload. JSON_parse (raw_body req) = Some payload \<and> processPushEvent payload = Inr result"
  using assms
  by (auto simp: webhook_def split: sum.splits bool.splits option.splits if_splits)

text \<open>
  Where the reported branch is the ref without its leading \<open>refs/heads/\<close>: in a Processed
  response the ref is a string; a ref that starts with \<open>refs/heads/\<close> is reported
  without that prefix, and a ref in which \<open>refs/heads/\<close> does not occur is reported
  unchanged.
\<close>

lemma processed_branch_agreement:
  assumes "webhook JSON_parse secret req = \<lparr>status = st, body = Processed_body msg delivery result\<rparr>"
  shows "\<exists>payload ref. JSON_parse (raw_body req) = Some payload
           \<and> get_prop (Some payload) ''ref'' = Inr (Some (JStr ref))
           \<and> (\<forall>b. ref = ''refs/heads/'' @ b \<longrightarrow> branch result = b)
           \<and> (\<not> sublist ''refs/heads/'' ref \<longrightarrow> branch result = ref)"
proof -
  obtain payload where payload: "JSON_parse (raw_body req) = Some payload"
    "processPushEvent payload = Inr result"
    using webhook_processed [OF assms] by blast
  obtain ref where ref: "get_prop (Some payload) ''ref'' = Inr (Some (JStr ref))"
    "branch result = String_replace ''refs/heads/'' '''' ref"
    using processPushEvent_branch [OF payload(2)] by blast
  have "\<forall>b. ref = ''refs/heads/'' @ b \<longrightarrow> branch result = b"
    using ref(2) String_replace_prefix [of "''refs/heads/''" "''''"] by auto
  moreover have "\<not> sublist ''refs/heads/'' ref \<longrightarrow> branch result = ref"
    using ref(2) by (simp add: String_replace_absent)
  ultimately show ?thesis
    using payload(1) ref(1) by blast
qed

text \<open>
  C5: the branch of a Processed response is the event's ref without a leading
  \<open>refs/heads/\<close>, and a ref that does not start with \<open>refs/heads/\<close> is reported as it is.
  The program breaks this at the ref \<open>refs/tags/refs/heads/x\<close>, which does not start with
  \<open>refs/heads/\<close>: its \<open>replace\<close> is not anchored at the start, removes the inner
  occurrence, and the response reports the branch \<open>refs/tags/x\<close>.
\<close>

theorem processed_branch_inner_occurrence:
  "\<not> prefix ''refs/heads/'' ''refs/tags/refs/heads/x''
   \<and> webhook
       (parsed_as (JObj [(''ref'', JStr ''refs/tags/refs/heads/x''),
                         (''repository'', JObj [(''full_name'', JStr ''u/r'')]),
                         (''pusher'', JObj [(''name'', JStr ''u'')]),
                         (''commits'', JArr [])]))
       None
       \<lparr>signature_header = None, event_header = Some ''push'',
        delivery_header = Some ''d1'', raw_body = ''{}''\<rparr>
     = \<lparr>status = 200,
        body = Processed_body ''Webhook processed successfully'' (Some ''d1'')
          \<lparr>processed = True, repository = Some (JStr ''u/r''), branch = ''refs/tags/x'',
           modifiedFiles = [],
           filesOfInterest = \<lparr>indexHtml = False, packageJson = False,
                                configFiles = False, dockerfiles = False\<rparr>\<rparr>\<rparr>"
  by code_simp

end
